theory Spec2Isabelle
  imports Main "HOL-Library.Word"
begin

section \<open>The Wi-Fi scanner of \<^verbatim>\<open>main/esp32-local-area-network-scanner.c\<close>\<close>

text \<open>
  The program is one C file: two pure helpers (\<^verbatim>\<open>authmode_to_str\<close>,
  \<^verbatim>\<open>ssid_or_none\<close>) and \<^verbatim>\<open>app_main\<close>, which brings the radio up and then
  loops forever: scan, fetch the records, log a table, free the buffer, sleep. The
  helpers are embedded as functions. \<^verbatim>\<open>app_main\<close> is embedded as a function from the
  return values of the external calls (the stubs of a test harness) to the sequence of
  calls and log messages the program makes, and to the way the run stops.
\<close>

subsection \<open>Bytes, C strings and faults\<close>

text \<open>
  \<^verbatim>\<open>uint8_t\<close>, \<^verbatim>\<open>int8_t\<close> and \<^verbatim>\<open>uint16_t\<close> are words. The bytes of a character
  array are \<^typ>\<open>char\<close>, the type of the 256 byte values, so that the cast from
  \<^verbatim>\<open>const uint8_t *\<close> to \<^verbatim>\<open>const char *\<close> changes nothing; \<open>NUL\<close> is \<^verbatim>\<open>'\0'\<close>.
\<close>

type_synonym u8 = "8 word"
type_synonym i8 = "8 word"
type_synonym u16 = "16 word"

definition NUL :: char where
  "NUL = CHR 0x00"

text \<open>
  What C leaves undefined is a value of the model: a read through a null pointer, a read
  past the end of an array, and a \<^verbatim>\<open>%s\<close> conversion of a character array that holds
  no terminating zero.
\<close>

datatype fault = NullDeref | OutOfBounds | Unterminated

text \<open>
  A string literal of the C source: its characters followed by the terminating zero
  byte.
\<close>

definition c_literal :: "string \<Rightarrow> char list" where
  "c_literal s = s @ [NUL]"

text \<open>
  The characters a \<^verbatim>\<open>%s\<close> conversion reads from a \<^verbatim>\<open>const char *\<close>: the bytes
  before the first zero byte. The argument is the bytes from the pointer to the end of
  the object it points into.
\<close>

definition c_string :: "char list \<Rightarrow> fault + string" where
  "c_string bs =
     (if NUL \<in> set bs then Inr (takeWhile (\<lambda>b. b \<noteq> NUL) bs) else Inl Unterminated)"

subsection \<open>The conversions of \<^verbatim>\<open>printf\<close> that the format strings use\<close>

definition digit_char :: "nat \<Rightarrow> char" where
  "digit_char d = ''0123456789ABCDEF'' ! d"

fun dec_nat :: "nat \<Rightarrow> string" where
  "dec_nat n = (if n < 10 then [digit_char n] else dec_nat (n div 10) @ [digit_char (n mod 10)])"

declare dec_nat.simps [simp del]

fun hex_nat :: "nat \<Rightarrow> string" where
  "hex_nat n = (if n < 16 then [digit_char n] else hex_nat (n div 16) @ [digit_char (n mod 16)])"

declare hex_nat.simps [simp del]

definition dec_int :: "int \<Rightarrow> string" where
  "dec_int i = (if i < 0 then CHR ''-'' # dec_nat (nat (- i)) else dec_nat (nat i))"

text \<open>
  A field of minimum width \<open>w\<close>: the text is never cut, and is filled with \<open>c\<close> on the
  left (right-justified, the default) or with spaces on the right (the \<^verbatim>\<open>-\<close> flag).
\<close>

definition pad_left :: "char \<Rightarrow> nat \<Rightarrow> string \<Rightarrow> string" where
  "pad_left c w s = replicate (w - length s) c @ s"

definition pad_right :: "nat \<Rightarrow> string \<Rightarrow> string" where
  "pad_right w s = s @ replicate (w - length s) CHR '' ''"

text \<open>\<^verbatim>\<open>%u\<close>, \<^verbatim>\<open>%<w>d\<close>, \<^verbatim>\<open>%<w>s\<close>, \<^verbatim>\<open>%-<w>s\<close> and \<^verbatim>\<open>%02X\<close>.\<close>

definition fmt_u :: "nat \<Rightarrow> string" where
  "fmt_u n = dec_nat n"

definition fmt_d :: "nat \<Rightarrow> int \<Rightarrow> string" where
  "fmt_d w i = pad_left CHR '' '' w (dec_int i)"

definition fmt_s :: "nat \<Rightarrow> string \<Rightarrow> string" where
  "fmt_s w s = pad_left CHR '' '' w s"

definition fmt_ls :: "nat \<Rightarrow> string \<Rightarrow> string" where
  "fmt_ls w s = pad_right w s"

definition fmt_02X :: "nat \<Rightarrow> string" where
  "fmt_02X n = pad_left CHR ''0'' 2 (hex_nat n)"

text \<open>Reading a decimal or hexadecimal numeral back, to state what the conversions print.\<close>

definition digit_val :: "char \<Rightarrow> nat" where
  "digit_val c =
     (let v = of_char c in if (48::nat) \<le> v \<and> v \<le> 57 then v - 48 else v - 55)"

definition numeral_val :: "nat \<Rightarrow> string \<Rightarrow> nat" where
  "numeral_val base s = foldl (\<lambda>a c. base * a + digit_val c) 0 s"

subsection \<open>Authentication modes\<close>

text \<open>
  Modelled from the spec: \<^verbatim>\<open>wifi_auth_mode_t\<close> is an enumeration of the ESP-IDF header
  \<^verbatim>\<open>esp_wifi_types.h\<close>, which is not under src/. Section 3 of the specification lists
  its values: open, WEP, WPA-PSK, WPA2-PSK, WPA/WPA2-PSK, WPA2-Enterprise, WPA3-PSK,
  WPA2/WPA3-PSK, and unknown. The first eight are the enumerators that the \<^verbatim>\<open>switch\<close>
  of \<^verbatim>\<open>authmode_to_str\<close> names, and they are constructors under the names of the
  source; \<open>WIFI_AUTH_OTHER v\<close> is any other value \<open>v\<close> of the enumeration type (an
  enumerator that the switch does not name, or a number that is no enumerator at all).
\<close>

datatype wifi_auth_mode_t =
    WIFI_AUTH_OPEN
  | WIFI_AUTH_WEP
  | WIFI_AUTH_WPA_PSK
  | WIFI_AUTH_WPA2_PSK
  | WIFI_AUTH_WPA_WPA2_PSK
  | WIFI_AUTH_WPA2_ENTERPRISE
  | WIFI_AUTH_WPA3_PSK
  | WIFI_AUTH_WPA2_WPA3_PSK
  | WIFI_AUTH_OTHER int

fun authmode_to_str :: "wifi_auth_mode_t \<Rightarrow> string" where
  "authmode_to_str WIFI_AUTH_OPEN = ''OPEN''"
| "authmode_to_str WIFI_AUTH_WEP = ''WEP''"
| "authmode_to_str WIFI_AUTH_WPA_PSK = ''WPA''"
| "authmode_to_str WIFI_AUTH_WPA2_PSK = ''WPA2''"
| "authmode_to_str WIFI_AUTH_WPA_WPA2_PSK = ''WPA/WPA2''"
| "authmode_to_str WIFI_AUTH_WPA2_ENTERPRISE = ''WPA2-E''"
| "authmode_to_str WIFI_AUTH_WPA3_PSK = ''WPA3''"
| "authmode_to_str WIFI_AUTH_WPA2_WPA3_PSK = ''WPA2/3''"
| "authmode_to_str _ = ''UNK''"

text \<open>The recognized set of the specification: the values the \<^verbatim>\<open>switch\<close> names.\<close>

definition recognized :: "wifi_auth_mode_t set" where
  "recognized =
     {WIFI_AUTH_OPEN, WIFI_AUTH_WEP, WIFI_AUTH_WPA_PSK, WIFI_AUTH_WPA2_PSK,
      WIFI_AUTH_WPA_WPA2_PSK, WIFI_AUTH_WPA2_ENTERPRISE, WIFI_AUTH_WPA3_PSK,
      WIFI_AUTH_WPA2_WPA3_PSK}"

subsection \<open>The identifier buffer\<close>

text \<open>
  \<^verbatim>\<open>const uint8_t ssid[33]\<close>: an array of exactly 33 bytes. The parameter is a
  pointer to it, and \<open>None\<close> is the null pointer.
\<close>

typedef ssid_buf = "{bs :: char list. length bs = 33}"
  by (rule exI [of _ "replicate 33 NUL"]) simp

definition ssid_bytes :: "ssid_buf \<Rightarrow> char list" where
  "ssid_bytes buf = Rep_ssid_buf buf"

text \<open>\<^verbatim>\<open>ssid[i]\<close>, a read through the pointer.\<close>

definition ssid_load :: "ssid_buf option \<Rightarrow> nat \<Rightarrow> fault + char" where
  "ssid_load p i =
     (case p of
        None \<Rightarrow> Inl NullDeref
      | Some buf \<Rightarrow> if i < 33 then Inr (ssid_bytes buf ! i) else Inl OutOfBounds)"

text \<open>
  \<^verbatim>\<open>return (ssid && ssid[0] != '\0') ? (const char*)ssid : "NONE";\<close>
  The result is the pointer returned, given by the bytes it points to. \<^verbatim>\<open>&&\<close> does
  not evaluate its right operand when \<^verbatim>\<open>ssid\<close> is null.
\<close>

definition ssid_or_none :: "ssid_buf option \<Rightarrow> fault + char list" where
  "ssid_or_none ssid =
     (case ssid of
        None \<Rightarrow> Inr (c_literal ''NONE'')
      | Some buf \<Rightarrow>
          (case ssid_load ssid 0 of
             Inl f \<Rightarrow> Inl f
           | Inr b \<Rightarrow> if b \<noteq> NUL then Inr (ssid_bytes buf) else Inr (c_literal ''NONE'')))"

text \<open>
  A buffer holding a given identifier, zero-filled to 33 bytes (at most 32 bytes of the
  identifier are kept), as the driver fills the field.
\<close>

definition ssid_of :: "string \<Rightarrow> ssid_buf" where
  "ssid_of s = Abs_ssid_buf (take 32 s @ replicate (33 - min 32 (length s)) NUL)"

subsection \<open>Scan result records\<close>

text \<open>\<^verbatim>\<open>uint8_t bssid[6]\<close>: an array of exactly six bytes, read as \<^verbatim>\<open>b[k]\<close>.\<close>

typedef bssid_t = "{bs :: u8 list. length bs = 6}"
  by (rule exI [of _ "replicate 6 0"]) simp

definition bssid_byte :: "bssid_t \<Rightarrow> nat \<Rightarrow> u8" where
  "bssid_byte b k = Rep_bssid_t b ! k"

definition bssid_of :: "u8 list \<Rightarrow> bssid_t" where
  "bssid_of bs = Abs_bssid_t (take 6 bs @ replicate (6 - length bs) 0)"

text \<open>
  Modelled from the spec: \<^verbatim>\<open>wifi_ap_record_t\<close> is a structure of the ESP-IDF header
  \<^verbatim>\<open>esp_wifi_types.h\<close>, which is not under src/. Section 3 of the specification gives
  its content: an identifier, a signal strength (a signed integer), a channel (a small
  positive integer), an authentication mode and a hardware address of six bytes. The
  record has these five fields under the names by which \<^verbatim>\<open>app_main\<close> reads them. The
  source shows \<^verbatim>\<open>ssid\<close> to be a \<^verbatim>\<open>uint8_t[33]\<close> and \<^verbatim>\<open>bssid\<close> to be an array of
  \<^verbatim>\<open>uint8_t\<close> read at the indices 0 to 5; \<^verbatim>\<open>rssi\<close> is an \<^verbatim>\<open>int8_t\<close> and \<^verbatim>\<open>primary\<close>
  a \<^verbatim>\<open>uint8_t\<close> in the header.
\<close>

record wifi_ap_record_t =
  bssid :: bssid_t
  ssid :: ssid_buf
  primary :: u8
  rssi :: i8
  authmode :: wifi_auth_mode_t

text \<open>\<^verbatim>\<open>static const char *TAG = "WIFI_SCAN";\<close>\<close>

definition TAG :: string where
  "TAG = ''WIFI_SCAN''"

text \<open>
  The message of the \<^verbatim>\<open>ESP_LOGI\<close> call in the body of the \<^verbatim>\<open>for\<close> loop, for the
  index \<open>i\<close> and the record \<^verbatim>\<open>recs[i]\<close>:
  \<^verbatim>\<open>"%2d | %-32s | %4d dBm | %4d | %-8s | %02X:%02X:%02X:%02X:%02X:%02X"\<close>.
  \<^verbatim>\<open>recs[i].ssid\<close> is the address of a field and is never null. The integer
  arguments are promoted to \<^verbatim>\<open>int\<close>.
\<close>

definition format_row :: "int \<Rightarrow> wifi_ap_record_t \<Rightarrow> fault + string" where
  "format_row i r =
     (case ssid_or_none (Some (ssid r)) of
        Inl f \<Rightarrow> Inl f
      | Inr p \<Rightarrow>
          (case c_string p of
             Inl f \<Rightarrow> Inl f
           | Inr ssid_text \<Rightarrow>
               (let auth = authmode_to_str (authmode r); b = bssid_byte (bssid r) in
                Inr (fmt_d 2 i @ '' | '' @ fmt_ls 32 ssid_text @ '' | ''
                     @ fmt_d 4 (sint (rssi r)) @ '' dBm | ''
                     @ fmt_d 4 (uint (primary r)) @ '' | ''
                     @ fmt_ls 8 auth @ '' | ''
                     @ fmt_02X (unat (b 0)) @ '':'' @ fmt_02X (unat (b 1)) @ '':''
                     @ fmt_02X (unat (b 2)) @ '':'' @ fmt_02X (unat (b 3)) @ '':''
                     @ fmt_02X (unat (b 4)) @ '':'' @ fmt_02X (unat (b 5))))))"

text \<open>\<^verbatim>\<open>"Found %u network%s", ap_num, (ap_num == 1 ? "" : "s")\<close>\<close>

definition header_line :: "u16 \<Rightarrow> string" where
  "header_line ap_num =
     ''Found '' @ fmt_u (unat ap_num) @ '' network'' @ (if ap_num = 1 then [] else ''s'')"

text \<open>The string of dashes that lines 99, 102 and 122 of the source write out.\<close>

definition separator :: string where
  "separator =
     ''--------------------------------------------------------------------------------------------''"

text \<open>\<^verbatim>\<open>" # | %-32s | %8s | %4s | %-8s | %s", "SSID", "RSSI", "CH", "AUTH", "BSSID"\<close>\<close>

definition column_header :: string where
  "column_header =
     '' # | '' @ fmt_ls 32 ''SSID'' @ '' | '' @ fmt_s 8 ''RSSI'' @ '' | '' @ fmt_s 4 ''CH''
     @ '' | '' @ fmt_ls 8 ''AUTH'' @ '' | '' @ ''BSSID''"

subsection \<open>The external calls and their stubs\<close>

text \<open>
  Modelled from the spec: \<^verbatim>\<open>esp_err_t\<close> and \<^verbatim>\<open>ESP_OK\<close> come from the ESP-IDF header
  \<^verbatim>\<open>esp_err.h\<close>, which is not under src/. A return code is an integer, and \<^verbatim>\<open>ESP_OK\<close>
  (the value 0) is the one success return of which the specification speaks.
\<close>

type_synonym esp_err_t = int

definition ESP_OK :: esp_err_t where
  "ESP_OK = 0"

datatype halt = Abort esp_err_t | Crash fault

text \<open>
  Modelled from the spec: \<^verbatim>\<open>ESP_ERROR_CHECK\<close> is a macro of ESP-IDF (\<^verbatim>\<open>esp_err.h\<close>)
  and is not under src/. The specification (section 7) says that the process is aborted
  on any non-success return of a checked call. \<open>Some h\<close> is the abort, \<open>None\<close> means
  that the program goes on.
\<close>

definition ESP_ERROR_CHECK :: "esp_err_t \<Rightarrow> halt option" where
  "ESP_ERROR_CHECK rc = (if rc \<noteq> ESP_OK then Some (Abort rc) else None)"

text \<open>
  The arguments of the calls: the station mode, and the scan configuration of lines 77
  to 83 (all channels, hidden networks included, an active scan of 100 to 200 ms for
  each channel).
\<close>

datatype wifi_mode_t = WIFI_MODE_STA

datatype wifi_scan_type_t = WIFI_SCAN_TYPE_ACTIVE | WIFI_SCAN_TYPE_PASSIVE

record wifi_scan_config_t =
  cfg_ssid :: "char list option"
  cfg_bssid :: "u8 list option"
  channel :: u8
  show_hidden :: bool
  scan_type :: wifi_scan_type_t
  scan_time_active_min :: nat
  scan_time_active_max :: nat

definition scan_cfg :: wifi_scan_config_t where
  "scan_cfg =
     \<lparr>cfg_ssid = None, cfg_bssid = None, channel = 0, show_hidden = True,
      scan_type = WIFI_SCAN_TYPE_ACTIVE, scan_time_active_min = 100,
      scan_time_active_max = 200\<rparr>"

text \<open>
  What the program does to the outside, in order. \<open>ScanStart cfg block\<close> is
  \<^verbatim>\<open>esp_wifi_scan_start(&cfg, block)\<close>; \<open>Calloc n\<close> is
  \<^verbatim>\<open>calloc(n, sizeof(*recs))\<close>; \<open>GetApRecords n\<close> is the call of
  \<^verbatim>\<open>esp_wifi_scan_get_ap_records\<close> with \<^verbatim>\<open>ap_num = n\<close> on entry; \<open>LogI tag msg\<close> is
  \<^verbatim>\<open>ESP_LOGI(tag, ...)\<close> with the formatted message \<open>msg\<close> (the logging macro adds its
  own prefix and line end, which are not part of the message); \<open>VTaskDelay_ms ms\<close> is
  \<^verbatim>\<open>vTaskDelay(pdMS_TO_TICKS(ms))\<close>.
\<close>

datatype init_call =
    Nvs_flash_init
  | Esp_netif_init
  | Esp_event_loop_create_default
  | Esp_netif_create_default_wifi_sta
  | Esp_wifi_init
  | Esp_wifi_set_mode wifi_mode_t
  | Esp_wifi_start

datatype event =
    Printf string
  | Init init_call
  | ScanStart wifi_scan_config_t bool
  | GetApNum
  | Calloc nat
  | GetApRecords nat
  | LogI string string
  | Free
  | VTaskDelay_ms nat

text \<open>
  The return values of the external calls, as a test harness would stub them. The stub
  of \<^verbatim>\<open>esp_wifi_scan_get_ap_num\<close> gives the return code and the count written to
  \<^verbatim>\<open>ap_num\<close>. \<open>calloc_ret\<close> is whether \<^verbatim>\<open>calloc\<close> returns a non-null pointer. The stub of
  \<^verbatim>\<open>esp_wifi_scan_get_ap_records\<close> gives the return code, the count written back to
  \<^verbatim>\<open>ap_num\<close> and the records that the array holds after the call.
\<close>

record init_stub =
  nvs_flash_init_ret :: esp_err_t
  esp_netif_init_ret :: esp_err_t
  esp_event_loop_create_default_ret :: esp_err_t
  esp_wifi_init_ret :: esp_err_t
  esp_wifi_set_mode_ret :: esp_err_t
  esp_wifi_start_ret :: esp_err_t

record scan_stub =
  scan_start_ret :: esp_err_t
  get_ap_num_ret :: "esp_err_t \<times> u16"
  calloc_ret :: bool
  get_ap_records_ret :: "esp_err_t \<times> u16 \<times> wifi_ap_record_t list"

subsection \<open>One pass of the loop\<close>

text \<open>
  \<^verbatim>\<open>recs[i]\<close>: \<open>None\<close> is the null pointer, and an index past the records that the
  array holds is a read outside it.
\<close>

definition recs_load :: "wifi_ap_record_t list option \<Rightarrow> nat \<Rightarrow> fault + wifi_ap_record_t" where
  "recs_load recs i =
     (case recs of
        None \<Rightarrow> Inl NullDeref
      | Some rs \<Rightarrow> if i < length rs then Inr (rs ! i) else Inl OutOfBounds)"

text \<open>
  \<^verbatim>\<open>for (int i = 0; i < ap_num; i++) { ... ESP_LOGI(TAG, ...); }\<close>, from the index
  \<open>i\<close> on. \<open>ap_num\<close> is at most 65535, so \<open>i\<close> stays within \<^verbatim>\<open>int\<close>.
\<close>

function report_rows ::
  "wifi_ap_record_t list option \<Rightarrow> nat \<Rightarrow> nat \<Rightarrow> event list \<times> halt option" where
  "report_rows recs ap_num i =
     (if i < ap_num then
        (case recs_load recs i of
           Inl f \<Rightarrow> ([], Some (Crash f))
         | Inr r \<Rightarrow>
             (case format_row (int i) r of
                Inl f \<Rightarrow> ([], Some (Crash f))
              | Inr line \<Rightarrow>
                  (case report_rows recs ap_num (i + 1) of
                     (t, h) \<Rightarrow> (LogI TAG line # t, h))))
      else ([], None))"
  by pat_completeness auto
termination
  by (relation "measure (\<lambda>(recs, ap_num, i). ap_num - i)") auto

declare report_rows.simps [simp del]

text \<open>
  Lines 92 to 96: \<^verbatim>\<open>recs = NULL; if (ap_num > 0) { recs = calloc(...);
  ESP_ERROR_CHECK(esp_wifi_scan_get_ap_records(&ap_num, recs)); }\<close>. The result is the
  value of \<^verbatim>\<open>ap_num\<close> and of \<^verbatim>\<open>recs\<close> afterwards.
\<close>

definition fetch_records ::
  "scan_stub \<Rightarrow> u16 \<Rightarrow> event list \<times> (halt + u16 \<times> wifi_ap_record_t list option)" where
  "fetch_records d ap_num =
     (if ap_num > 0 then
        (case get_ap_records_ret d of
           (rc, ap_num', rs) \<Rightarrow>
             (case ESP_ERROR_CHECK rc of
                Some h \<Rightarrow> ([Calloc (unat ap_num), GetApRecords (unat ap_num)], Inl h)
              | None \<Rightarrow>
                  ([Calloc (unat ap_num), GetApRecords (unat ap_num)],
                   Inr (ap_num', if calloc_ret d then Some rs else None))))
      else ([], Inr (ap_num, None)))"

text \<open>The body of \<^verbatim>\<open>while (1)\<close>, lines 88 to 123.\<close>

definition scan_cycle :: "scan_stub \<Rightarrow> event list \<times> halt option" where
  "scan_cycle d =
     (case ESP_ERROR_CHECK (scan_start_ret d) of
        Some h \<Rightarrow> ([ScanStart scan_cfg True], Some h)
      | None \<Rightarrow>
          (case ESP_ERROR_CHECK (fst (get_ap_num_ret d)) of
             Some h \<Rightarrow> ([ScanStart scan_cfg True, GetApNum], Some h)
           | None \<Rightarrow>
               (case fetch_records d (snd (get_ap_num_ret d)) of
                  (t1, Inl h) \<Rightarrow> ([ScanStart scan_cfg True, GetApNum] @ t1, Some h)
                | (t1, Inr (ap_num, recs)) \<Rightarrow>
                    (let t2 = [LogI TAG (header_line ap_num), LogI TAG separator,
                               LogI TAG column_header, LogI TAG separator] in
                     case report_rows recs (unat ap_num) 0 of
                       (t3, Some h) \<Rightarrow>
                         ([ScanStart scan_cfg True, GetApNum] @ t1 @ t2 @ t3, Some h)
                     | (t3, None) \<Rightarrow>
                         ([ScanStart scan_cfg True, GetApNum] @ t1 @ t2 @ t3
                          @ (if recs \<noteq> None then [Free] else [])
                          @ [LogI TAG (separator @ ''\<newline>''), VTaskDelay_ms 3000],
                          None)))))"

subsection \<open>The loop and the program\<close>

text \<open>
  \<^verbatim>\<open>while (1)\<close> has no exit: a run either stops in a halt, or it is still in the
  loop when the stubs of the harness are used up (one stub for each pass).
\<close>

datatype outcome = Halted halt | Running

fun scan_loop :: "scan_stub list \<Rightarrow> event list \<times> outcome" where
  "scan_loop [] = ([], Running)"
| "scan_loop (d # ds) =
     (case scan_cycle d of
        (t, Some h) \<Rightarrow> (t, Halted h)
      | (t, None) \<Rightarrow> (case scan_loop ds of (t', res) \<Rightarrow> (t @ t', res)))"

text \<open>
  Lines 67 to 75: the calls of the initialisation in order, each with the return code
  that \<^verbatim>\<open>ESP_ERROR_CHECK\<close> checks; \<^verbatim>\<open>esp_netif_create_default_wifi_sta\<close> is not
  checked.
\<close>

definition init_calls :: "init_stub \<Rightarrow> (init_call \<times> esp_err_t option) list" where
  "init_calls d =
     [(Nvs_flash_init, Some (nvs_flash_init_ret d)),
      (Esp_netif_init, Some (esp_netif_init_ret d)),
      (Esp_event_loop_create_default, Some (esp_event_loop_create_default_ret d)),
      (Esp_netif_create_default_wifi_sta, None),
      (Esp_wifi_init, Some (esp_wifi_init_ret d)),
      (Esp_wifi_set_mode WIFI_MODE_STA, Some (esp_wifi_set_mode_ret d)),
      (Esp_wifi_start, Some (esp_wifi_start_ret d))]"

fun run_init :: "(init_call \<times> esp_err_t option) list \<Rightarrow> event list \<times> halt option" where
  "run_init [] = ([], None)"
| "run_init ((c, None) # cs) = (case run_init cs of (t, h) \<Rightarrow> (Init c # t, h))"
| "run_init ((c, Some rc) # cs) =
     (case ESP_ERROR_CHECK rc of
        Some h \<Rightarrow> ([Init c], Some h)
      | None \<Rightarrow> (case run_init cs of (t, h) \<Rightarrow> (Init c # t, h)))"

text \<open>\<^verbatim>\<open>app_main\<close>: lines 66 to 85, then the loop.\<close>

definition app_main :: "init_stub \<Rightarrow> scan_stub list \<Rightarrow> event list \<times> outcome" where
  "app_main d ds =
     (case run_init (init_calls d) of
        (t, Some h) \<Rightarrow> (Printf ''\<newline>'' # t, Halted h)
      | (t, None) \<Rightarrow>
          (case scan_loop ds of
             (t', res) \<Rightarrow> (Printf ''\<newline>'' # t @ Printf ''\<newline>'' # t', res)))"

subsection \<open>The table as the specification words it\<close>

text \<open>
  The row that the specification describes for the record \<open>r\<close> at the zero-based index
  \<open>i\<close>, to be compared with \<open>format_row\<close>: the identifier or the placeholder, the signal
  strength followed by \<^verbatim>\<open>dBm\<close>, the channel, the label of the authentication mode and
  the address as six octets of two upper-case hexadecimal digits with colons between
  them.
\<close>

definition hex_octet :: "u8 \<Rightarrow> string" where
  "hex_octet b = [digit_char (unat b div 16), digit_char (unat b mod 16)]"

definition mac_text :: "bssid_t \<Rightarrow> string" where
  "mac_text b =
     hex_octet (bssid_byte b 0) @ '':'' @ hex_octet (bssid_byte b 1) @ '':''
     @ hex_octet (bssid_byte b 2) @ '':'' @ hex_octet (bssid_byte b 3) @ '':''
     @ hex_octet (bssid_byte b 4) @ '':'' @ hex_octet (bssid_byte b 5)"

definition ssid_display :: "ssid_buf \<Rightarrow> string" where
  "ssid_display buf =
     (if ssid_bytes buf ! 0 = NUL then ''NONE''
      else takeWhile (\<lambda>c. c \<noteq> NUL) (ssid_bytes buf))"

definition row_text :: "nat \<Rightarrow> wifi_ap_record_t \<Rightarrow> string" where
  "row_text i r =
     fmt_d 2 (int i) @ '' | '' @ fmt_ls 32 (ssid_display (ssid r)) @ '' | ''
     @ fmt_d 4 (sint (rssi r)) @ '' dBm | '' @ fmt_d 4 (uint (primary r)) @ '' | ''
     @ fmt_ls 8 (authmode_to_str (authmode r)) @ '' | '' @ mac_text (bssid r)"

text \<open>The identifier of a record is terminated when its 33 bytes hold a zero byte.\<close>

definition terminated :: "wifi_ap_record_t \<Rightarrow> bool" where
  "terminated r = (NUL \<in> set (ssid_bytes (ssid r)))"

subsection \<open>Reading a trace\<close>

definition messages :: "event list \<Rightarrow> string list" where
  "messages t = concat (map (\<lambda>e. case e of LogI tag msg \<Rightarrow> [msg] | _ \<Rightarrow> []) t)"

definition is_log :: "event \<Rightarrow> bool" where
  "is_log e = (case e of LogI tag msg \<Rightarrow> True | _ \<Rightarrow> False)"

definition is_scan_start :: "event \<Rightarrow> bool" where
  "is_scan_start e = (case e of ScanStart cfg block \<Rightarrow> True | _ \<Rightarrow> False)"

definition is_calloc :: "event \<Rightarrow> bool" where
  "is_calloc e = (case e of Calloc n \<Rightarrow> True | _ \<Rightarrow> False)"

definition is_fetch :: "event \<Rightarrow> bool" where
  "is_fetch e = (case e of GetApRecords n \<Rightarrow> True | _ \<Rightarrow> False)"

definition is_free :: "event \<Rightarrow> bool" where
  "is_free e = (e = Free)"

definition is_delay :: "event \<Rightarrow> bool" where
  "is_delay e = (case e of VTaskDelay_ms ms \<Rightarrow> True | _ \<Rightarrow> False)"

definition is_startup :: "event \<Rightarrow> bool" where
  "is_startup e = (case e of Printf s \<Rightarrow> True | Init c \<Rightarrow> True | _ \<Rightarrow> False)"

definition count :: "(event \<Rightarrow> bool) \<Rightarrow> event list \<Rightarrow> nat" where
  "count P t = length (filter P t)"

text \<open>The return codes that the initialisation checks, in the order of the calls.\<close>

definition init_rets :: "init_stub \<Rightarrow> esp_err_t list" where
  "init_rets d =
     [nvs_flash_init_ret d, esp_netif_init_ret d, esp_event_loop_create_default_ret d,
      esp_wifi_init_ret d, esp_wifi_set_mode_ret d, esp_wifi_start_ret d]"

text \<open>Stubs for the examples: every call succeeds.\<close>

definition init_ok :: init_stub where
  "init_ok =
     \<lparr>nvs_flash_init_ret = ESP_OK, esp_netif_init_ret = ESP_OK,
      esp_event_loop_create_default_ret = ESP_OK, esp_wifi_init_ret = ESP_OK,
      esp_wifi_set_mode_ret = ESP_OK, esp_wifi_start_ret = ESP_OK\<rparr>"

definition scan_ok :: "wifi_ap_record_t list \<Rightarrow> scan_stub" where
  "scan_ok rs =
     \<lparr>scan_start_ret = ESP_OK, get_ap_num_ret = (ESP_OK, of_nat (length rs)),
      calloc_ret = True, get_ap_records_ret = (ESP_OK, of_nat (length rs), rs)\<rparr>"

text \<open>
  The two records of the example of the specification (section 8): a network
  \<^verbatim>\<open>TestNet\<close> at -40 dBm on channel 6 with WPA2, and a hidden one at -80 dBm on channel
  11 without authentication.
\<close>

definition test_net :: wifi_ap_record_t where
  "test_net =
     \<lparr>bssid = bssid_of [0x11, 0x22, 0x33, 0x44, 0x55, 0x66], ssid = ssid_of ''TestNet'',
      primary = 6, rssi = - 40, authmode = WIFI_AUTH_WPA2_PSK\<rparr>"

definition hidden_net :: wifi_ap_record_t where
  "hidden_net =
     \<lparr>bssid = bssid_of [0xAA, 0xBB, 0xCC, 0xDD, 0xEE, 0xFF], ssid = ssid_of [],
      primary = 11, rssi = - 80, authmode = WIFI_AUTH_OPEN\<rparr>"

section \<open>Facts about the conversions\<close>

lemma length_ssid_bytes: "length (ssid_bytes buf) = 33"
  using Rep_ssid_buf [of buf] by (simp add: ssid_bytes_def)

lemma ssid_bytes_of:
  "ssid_bytes (ssid_of s) = take 32 s @ replicate (33 - min 32 (length s)) NUL"
  by (simp add: ssid_bytes_def ssid_of_def Abs_ssid_buf_inverse)

lemma bssid_byte_of:
  "bssid_byte (bssid_of [b0, b1, b2, b3, b4, b5]) k = [b0, b1, b2, b3, b4, b5] ! k"
  by (simp add: bssid_byte_def bssid_of_def Abs_bssid_t_inverse)

lemma takeWhile_until:
  "x \<notin> set s \<Longrightarrow> takeWhile (\<lambda>b. b \<noteq> x) (s @ x # rest) = s"
  by (induction s) auto

lemma c_string_literal: "NUL \<notin> set s \<Longrightarrow> c_string (c_literal s) = Inr s"
  by (simp add: c_string_def c_literal_def takeWhile_until)

lemma digit_cases:
  "d < 10 \<Longrightarrow>
   d = 0 \<or> d = 1 \<or> d = 2 \<or> d = 3 \<or> d = 4 \<or> d = 5 \<or> d = 6 \<or> d = 7 \<or> d = 8 \<or> d = (9::nat)"
  by arith

lemma digit_val_digit_char: "d < 10 \<Longrightarrow> digit_val (digit_char d) = d"
  by (drule digit_cases, elim disjE) (simp_all add: digit_val_def digit_char_def)

lemma digit_char_decimal: "d < 10 \<Longrightarrow> digit_char d \<in> set ''0123456789''"
  by (drule digit_cases, elim disjE) (simp_all add: digit_char_def)

lemma numeral_val_snoc: "numeral_val b (s @ [c]) = b * numeral_val b s + digit_val c"
  by (simp add: numeral_val_def)

lemma dec_nat_small: "n < 10 \<Longrightarrow> dec_nat n = [digit_char n]"
  by (subst dec_nat.simps) simp

lemma dec_nat_large:
  "\<not> n < 10 \<Longrightarrow> dec_nat n = dec_nat (n div 10) @ [digit_char (n mod 10)]"
  by (subst dec_nat.simps) simp

lemma numeral_val_dec_nat: "numeral_val 10 (dec_nat n) = n"
proof (induction n rule: dec_nat.induct)
  case (1 n)
  show ?case
  proof (cases "n < 10")
    case True
    then show ?thesis
      by (simp add: dec_nat_small numeral_val_def digit_val_digit_char)
  next
    case False
    with 1 have "numeral_val 10 (dec_nat (n div 10)) = n div 10" by simp
    with False show ?thesis
      by (simp add: dec_nat_large numeral_val_snoc digit_val_digit_char)
  qed
qed

lemma dec_nat_digits: "set (dec_nat n) \<subseteq> set ''0123456789''"
proof (induction n rule: dec_nat.induct)
  case (1 n)
  show ?case
  proof (cases "n < 10")
    case True
    then show ?thesis
      using digit_char_decimal [of n] by (simp add: dec_nat_small)
  next
    case False
    with 1 have "set (dec_nat (n div 10)) \<subseteq> set ''0123456789''" by simp
    moreover have "digit_char (n mod 10) \<in> set ''0123456789''"
      by (rule digit_char_decimal) simp
    ultimately show ?thesis
      using False by (simp add: dec_nat_large)
  qed
qed

lemma hex_nat_small: "n < 16 \<Longrightarrow> hex_nat n = [digit_char n]"
  by (subst hex_nat.simps) simp

lemma hex_nat_byte:
  "\<not> n < 16 \<Longrightarrow> n < 256 \<Longrightarrow> hex_nat n = [digit_char (n div 16), digit_char (n mod 16)]"
  by (subst hex_nat.simps) (simp add: hex_nat_small)

lemma unat_byte: "unat (b :: u8) < 256"
  using unsigned_less [of b, where ?'a = nat] by simp

lemma fmt_02X_octet: "fmt_02X (unat b) = hex_octet b"
  using unat_byte [of b]
  by (cases "unat b < 16")
    (simp_all add: fmt_02X_def pad_left_def hex_octet_def hex_nat_small hex_nat_byte
      digit_char_def)

lemma hex_digit_upper: "d < 16 \<Longrightarrow> digit_char d \<in> set ''0123456789ABCDEF''"
  unfolding digit_char_def by (rule nth_mem) simp

lemma hex_digit_cases:
  "d < 16 \<Longrightarrow>
   d < 10 \<or> d = 10 \<or> d = 11 \<or> d = 12 \<or> d = 13 \<or> d = 14 \<or> d = (15::nat)"
  by arith

lemma digit_val_hex: "d < 16 \<Longrightarrow> digit_val (digit_char d) = d"
  by (drule hex_digit_cases, elim disjE)
    (simp_all add: digit_val_digit_char, simp_all add: digit_val_def digit_char_def)

lemma hex_octet_shape:
  "length (hex_octet b) = 2 \<and> set (hex_octet b) \<subseteq> set ''0123456789ABCDEF''
   \<and> numeral_val 16 (hex_octet b) = unat b"
proof -
  have d: "unat b div 16 < 16" "unat b mod 16 < 16"
    using unat_byte [of b] by simp_all
  have "set (hex_octet b) \<subseteq> set ''0123456789ABCDEF''"
    using hex_digit_upper [OF d(1)] hex_digit_upper [OF d(2)]
    by (simp add: hex_octet_def)
  moreover have "numeral_val 16 (hex_octet b) = unat b"
    by (simp add: hex_octet_def numeral_val_def digit_val_hex d)
  ultimately show ?thesis by (simp add: hex_octet_def)
qed

section \<open>Facts about a row\<close>

lemma ssid_or_none_Some:
  "ssid_or_none (Some buf) =
     Inr (if ssid_bytes buf ! 0 = NUL then c_literal ''NONE'' else ssid_bytes buf)"
  by (simp add: ssid_or_none_def ssid_load_def)

lemma c_string_display:
  "NUL \<in> set (ssid_bytes buf) \<Longrightarrow>
   c_string (if ssid_bytes buf ! 0 = NUL then c_literal ''NONE'' else ssid_bytes buf)
     = Inr (ssid_display buf)"
  by (simp add: ssid_display_def c_string_literal NUL_def) (simp add: c_string_def NUL_def)

lemma c_string_unterminated:
  "NUL \<notin> set (ssid_bytes buf) \<Longrightarrow>
   c_string (if ssid_bytes buf ! 0 = NUL then c_literal ''NONE'' else ssid_bytes buf)
     = Inl Unterminated"
proof -
  assume a: "NUL \<notin> set (ssid_bytes buf)"
  have "ssid_bytes buf ! 0 \<in> set (ssid_bytes buf)"
    by (rule nth_mem) (simp add: length_ssid_bytes)
  with a have "ssid_bytes buf ! 0 \<noteq> NUL" by auto
  with a show ?thesis by (simp add: c_string_def)
qed

lemma format_row_terminated:
  "terminated r \<Longrightarrow> format_row (int i) r = Inr (row_text i r)"
  by (simp add: format_row_def ssid_or_none_Some c_string_display terminated_def
      row_text_def mac_text_def fmt_02X_octet Let_def)

text \<open>
  The hypothesis on the identifier is needed: a \<^verbatim>\<open>%s\<close> conversion of a buffer without
  a zero byte reads past its end.
\<close>

lemma format_row_unterminated:
  "\<not> terminated r \<Longrightarrow> format_row i r = Inl Unterminated"
  by (simp add: format_row_def ssid_or_none_Some c_string_unterminated terminated_def)

section \<open>Facts about the rows of a pass\<close>

lemma report_rows_done: "\<not> i < n \<Longrightarrow> report_rows recs n i = ([], None)"
  by (subst report_rows.simps) simp

lemma report_rows_step:
  "i < n \<Longrightarrow> recs_load recs i = Inr r \<Longrightarrow> format_row (int i) r = Inr line \<Longrightarrow>
   report_rows recs n i =
     (LogI TAG line # fst (report_rows recs n (Suc i)), snd (report_rows recs n (Suc i)))"
  by (subst report_rows.simps) (simp add: case_prod_beta)

lemma report_rows_stop_load:
  "i < n \<Longrightarrow> recs_load recs i = Inl f \<Longrightarrow> report_rows recs n i = ([], Some (Crash f))"
  by (subst report_rows.simps) simp

lemma report_rows_stop_format:
  "i < n \<Longrightarrow> recs_load recs i = Inr r \<Longrightarrow> format_row (int i) r = Inl f \<Longrightarrow>
   report_rows recs n i = ([], Some (Crash f))"
  by (subst report_rows.simps) simp

lemma report_rows_terminated:
  assumes "n \<le> length rs" and "\<forall>r \<in> set (take n rs). terminated r"
  shows "report_rows (Some rs) n i
           = (map (\<lambda>k. LogI TAG (row_text k (rs ! k))) [i..<n], None)"
proof (induction "n - i" arbitrary: i)
  case 0
  then show ?case by (simp add: report_rows_done)
next
  case (Suc m)
  then have lt: "i < n" and m: "m = n - Suc i" by simp_all
  from lt assms(1) have load: "recs_load (Some rs) i = Inr (rs ! i)"
    by (simp add: recs_load_def)
  from lt assms(1) have "rs ! i \<in> set (take n rs)"
    by (metis length_take min.absorb2 nth_mem nth_take)
  with assms(2) have "format_row (int i) (rs ! i) = Inr (row_text i (rs ! i))"
    by (simp add: format_row_terminated)
  with lt load Suc(1) [OF m] show ?case
    by (simp add: report_rows_step upt_conv_Cons)
qed

lemma report_rows_only_logs: "\<forall>e \<in> set (fst (report_rows recs n i)). is_log e"
proof (induction "n - i" arbitrary: i)
  case 0
  then show ?case by (simp add: report_rows_done)
next
  case (Suc m)
  then have lt: "i < n" and m: "m = n - Suc i" by simp_all
  show ?case
  proof (cases "recs_load recs i")
    case (Inl f)
    with lt show ?thesis by (simp add: report_rows_stop_load)
  next
    case (Inr r)
    show ?thesis
    proof (cases "format_row (int i) r")
      case (Inl f)
      with lt Inr show ?thesis by (simp add: report_rows_stop_format)
    next
      case line: (Inr line)
      with lt Inr Suc(1) [OF m] show ?thesis
        by (simp add: report_rows_step is_log_def)
    qed
  qed
qed

lemma rows_enumerate:
  "n \<le> length rs \<Longrightarrow>
   map (\<lambda>k. f k (rs ! k)) [0..<n] = map (\<lambda>(k, r). f k r) (enumerate 0 (take n rs))"
  by (rule nth_equalityI) (simp_all add: nth_enumerate_eq)

section \<open>Facts about a pass of the loop\<close>

lemma fetch_records_zero: "fetch_records d 0 = ([], Inr (0, None))"
  by (simp add: fetch_records_def)

lemma fetch_records_ok:
  "0 < n \<Longrightarrow> get_ap_records_ret d = (ESP_OK, k, rs) \<Longrightarrow>
   fetch_records d n =
     ([Calloc (unat n), GetApRecords (unat n)],
      Inr (k, if calloc_ret d then Some rs else None))"
  by (simp add: fetch_records_def ESP_ERROR_CHECK_def)

lemma fetch_records_fail:
  "0 < n \<Longrightarrow> fst (get_ap_records_ret d) \<noteq> ESP_OK \<Longrightarrow>
   fetch_records d n =
     ([Calloc (unat n), GetApRecords (unat n)], Inl (Abort (fst (get_ap_records_ret d))))"
  by (cases "get_ap_records_ret d") (simp add: fetch_records_def ESP_ERROR_CHECK_def)

lemma scan_cycle_reported:
  "scan_start_ret d = ESP_OK \<Longrightarrow> fst (get_ap_num_ret d) = ESP_OK \<Longrightarrow>
   fetch_records d (snd (get_ap_num_ret d)) = (t1, Inr (ap_num, recs)) \<Longrightarrow>
   report_rows recs (unat ap_num) 0 = (t3, None) \<Longrightarrow>
   scan_cycle d =
     ([ScanStart scan_cfg True, GetApNum] @ t1
      @ [LogI TAG (header_line ap_num), LogI TAG separator, LogI TAG column_header,
         LogI TAG separator]
      @ t3 @ (if recs \<noteq> None then [Free] else [])
      @ [LogI TAG (separator @ ''\<newline>''), VTaskDelay_ms 3000], None)"
  by (simp add: scan_cycle_def ESP_ERROR_CHECK_def)

lemma scan_cycle_completed:
  assumes "snd (scan_cycle d) = None"
  shows "scan_start_ret d = ESP_OK \<and> fst (get_ap_num_ret d) = ESP_OK
    \<and> (\<exists>t1 ap_num recs t3.
          fetch_records d (snd (get_ap_num_ret d)) = (t1, Inr (ap_num, recs))
          \<and> report_rows recs (unat ap_num) 0 = (t3, None))"
  using assms
  by (auto simp: scan_cycle_def ESP_ERROR_CHECK_def Let_def
      split: if_splits prod.splits sum.splits option.splits)

lemma replicate_numeral: "replicate (numeral k) x = x # replicate (pred_numeral k) x"
  by (simp add: numeral_eq_Suc)

lemma test_net_row:
  "row_text 0 test_net
     = '' 0 | TestNet                          |  -40 dBm |    6 | WPA2     | 11:22:33:44:55:66''"
  by (simp add: row_text_def test_net_def fmt_d_def fmt_ls_def pad_left_def pad_right_def
      dec_int_def dec_nat.simps digit_char_def ssid_display_def ssid_bytes_of NUL_def
      mac_text_def hex_octet_def bssid_byte_of replicate_numeral)

lemma hidden_net_row:
  "row_text (Suc 0) hidden_net
     = '' 1 | NONE                             |  -80 dBm |   11 | OPEN     | AA:BB:CC:DD:EE:FF''"
  by (simp add: row_text_def hidden_net_def fmt_d_def fmt_ls_def pad_left_def pad_right_def
      dec_int_def dec_nat.simps digit_char_def ssid_display_def ssid_bytes_of NUL_def
      mac_text_def hex_octet_def bssid_byte_of replicate_numeral)

lemma terminated_examples: "terminated test_net" "terminated hidden_net"
  by (simp_all add: terminated_def test_net_def hidden_net_def ssid_bytes_of NUL_def)

lemma column_header_text:
  "column_header
     = '' # | SSID                             |     RSSI |   CH | AUTH     | BSSID''"
  by (simp add: column_header_def fmt_ls_def fmt_s_def pad_left_def pad_right_def
      replicate_numeral)

section \<open>Facts about traces\<close>

lemma count_append: "count P (s @ t) = count P s + count P t"
  by (simp add: count_def)

lemma count_Nil: "count P [] = 0"
  by (simp add: count_def)

lemma messages_append: "messages (s @ t) = messages s @ messages t"
  by (simp add: messages_def)

lemma messages_Cons:
  "messages (e # t) = (case e of LogI tag msg \<Rightarrow> [msg] | _ \<Rightarrow> []) @ messages t"
  by (simp add: messages_def)

lemma messages_Nil: "messages [] = []"
  by (simp add: messages_def)

lemma rows_not_other:
  "e \<in> set (fst (report_rows recs n i)) \<Longrightarrow>
   \<not> is_free e \<and> \<not> is_delay e \<and> \<not> is_calloc e \<and> \<not> is_scan_start e \<and> \<not> is_fetch e"
  using report_rows_only_logs [of recs n i]
  by (auto simp: is_log_def is_free_def is_delay_def is_calloc_def is_scan_start_def
      is_fetch_def split: event.splits)

lemma report_rows_count:
  "snd (report_rows recs n i) = None \<Longrightarrow>
   length (messages (fst (report_rows recs n i))) = n - i"
proof (induction "n - i" arbitrary: i)
  case 0
  then show ?case by (simp add: report_rows_done messages_Nil)
next
  case (Suc m)
  then have lt: "i < n" and m: "m = n - Suc i" by simp_all
  show ?case
  proof (cases "recs_load recs i")
    case (Inl f)
    with lt Suc.prems show ?thesis by (simp add: report_rows_stop_load)
  next
    case (Inr r)
    show ?thesis
    proof (cases "format_row (int i) r")
      case (Inl f)
      with lt Inr Suc.prems show ?thesis by (simp add: report_rows_stop_format)
    next
      case line: (Inr line)
      with lt Inr Suc.prems have "snd (report_rows recs n (Suc i)) = None"
        by (simp add: report_rows_step)
      with Suc(1) [OF m] lt Inr line show ?thesis
        by (simp add: report_rows_step messages_Cons)
    qed
  qed
qed

lemma fetch_records_cases:
  assumes "fetch_records d n = (t1, Inr (ap_num, recs))"
  shows "(n = 0 \<and> t1 = [] \<and> ap_num = 0 \<and> recs = None)
       \<or> (0 < n \<and> t1 = [Calloc (unat n), GetApRecords (unat n)]
          \<and> (recs \<noteq> None \<longleftrightarrow> calloc_ret d))"
  using assms
  by (cases "get_ap_records_ret d")
    (auto simp: fetch_records_def ESP_ERROR_CHECK_def word_greater_zero_iff
      split: if_splits)

text \<open>The shape of the trace of a pass that runs to its end.\<close>

lemma scan_cycle_shape:
  assumes "snd (scan_cycle d) = None"
  obtains t1 ap_num recs t3 where
    "fetch_records d (snd (get_ap_num_ret d)) = (t1, Inr (ap_num, recs))"
    and "report_rows recs (unat ap_num) 0 = (t3, None)"
    and "scan_cycle d =
     ([ScanStart scan_cfg True, GetApNum] @ t1
      @ [LogI TAG (header_line ap_num), LogI TAG separator, LogI TAG column_header,
         LogI TAG separator]
      @ t3 @ (if recs \<noteq> None then [Free] else [])
      @ [LogI TAG (separator @ ''\<newline>''), VTaskDelay_ms 3000], None)"
  using scan_cycle_completed [OF assms] scan_cycle_reported [of d] by blast

lemma scan_cycle_rows:
  assumes "scan_start_ret d = ESP_OK" and "get_ap_num_ret d = (ESP_OK, n)" and "0 < n"
    and "calloc_ret d" and "get_ap_records_ret d = (ESP_OK, k, rs)"
    and "unat k \<le> length rs" and "\<forall>r \<in> set (take (unat k) rs). terminated r"
  shows "scan_cycle d =
           ([ScanStart scan_cfg True, GetApNum, Calloc (unat n), GetApRecords (unat n),
             LogI TAG (header_line k), LogI TAG separator, LogI TAG column_header,
             LogI TAG separator]
            @ map (\<lambda>(i, r). LogI TAG (row_text i r)) (enumerate 0 (take (unat k) rs))
            @ [Free, LogI TAG (separator @ ''\<newline>''), VTaskDelay_ms 3000], None)"
proof -
  have rows: "report_rows (Some rs) (unat k) 0
      = (map (\<lambda>(i, r). LogI TAG (row_text i r)) (enumerate 0 (take (unat k) rs)), None)"
    using assms(6,7) rows_enumerate [of "unat k" rs "\<lambda>i r. LogI TAG (row_text i r)"]
    by (simp add: report_rows_terminated)
  have fetch: "fetch_records d (snd (get_ap_num_ret d))
      = ([Calloc (unat n), GetApRecords (unat n)], Inr (k, Some rs))"
    using assms(2-5) by (simp add: fetch_records_ok)
  show ?thesis
    using scan_cycle_reported [OF assms(1) _ fetch rows] assms(2) by simp
qed

lemma scan_cycle_no_networks:
  assumes "scan_start_ret d = ESP_OK" and "get_ap_num_ret d = (ESP_OK, 0)"
  shows "scan_cycle d =
           ([ScanStart scan_cfg True, GetApNum, LogI TAG ''Found 0 networks'',
             LogI TAG separator, LogI TAG column_header, LogI TAG separator,
             LogI TAG (separator @ ''\<newline>''), VTaskDelay_ms 3000], None)"
  using scan_cycle_reported [of d "[]" 0 None "[]"] assms
  by (simp add: fetch_records_zero report_rows_done header_line_def fmt_u_def
      dec_nat_small digit_char_def)

lemma scan_ok_empty_completes: "snd (scan_cycle (scan_ok [])) = None"
  using scan_cycle_no_networks [of "scan_ok []"] by (simp add: scan_ok_def)

lemma scan_ok_test_net_completes: "snd (scan_cycle (scan_ok [test_net])) = None"
  using scan_cycle_rows [of "scan_ok [test_net]" 1 1 "[test_net]"]
  by (simp add: scan_ok_def terminated_examples)

section \<open>Facts about the loop\<close>

lemma separator_dashes: "separator = replicate 92 CHR ''-''"
  by (simp add: separator_def replicate_numeral)

lemma scan_loop_completed:
  "\<forall>d \<in> set ds. snd (scan_cycle d) = None \<Longrightarrow>
   scan_loop ds = (concat (map (\<lambda>d. fst (scan_cycle d)) ds), Running)"
  by (induction ds) (auto simp: case_prod_beta split: option.splits prod.splits)

lemma scan_loop_halts:
  "\<forall>d \<in> set pre. snd (scan_cycle d) = None \<Longrightarrow> snd (scan_cycle d) = Some h \<Longrightarrow>
   scan_loop (pre @ d # post)
     = (concat (map (\<lambda>d. fst (scan_cycle d)) pre) @ fst (scan_cycle d), Halted h)"
  by (induction pre) (auto simp: case_prod_beta split: option.splits prod.splits)

lemma scan_cycle_delay:
  assumes "snd (scan_cycle d) = None"
  shows "\<exists>body. fst (scan_cycle d) = ScanStart scan_cfg True # body @ [VTaskDelay_ms 3000]
     \<and> (\<forall>e \<in> set body. \<not> is_delay e \<and> \<not> is_scan_start e)"
proof -
  from assms obtain t1 ap_num recs t3 where
    fetch: "fetch_records d (snd (get_ap_num_ret d)) = (t1, Inr (ap_num, recs))"
    and rows: "report_rows recs (unat ap_num) 0 = (t3, None)"
    and shape: "scan_cycle d =
     ([ScanStart scan_cfg True, GetApNum] @ t1
      @ [LogI TAG (header_line ap_num), LogI TAG separator, LogI TAG column_header,
         LogI TAG separator]
      @ t3 @ (if recs \<noteq> None then [Free] else [])
      @ [LogI TAG (separator @ ''\<newline>''), VTaskDelay_ms 3000], None)"
    by (rule scan_cycle_shape)
  let ?body = "GetApNum # t1
      @ [LogI TAG (header_line ap_num), LogI TAG separator, LogI TAG column_header,
         LogI TAG separator]
      @ t3 @ (if recs \<noteq> None then [Free] else [])
      @ [LogI TAG (separator @ ''\<newline>'')]"
  have t3: "\<forall>e \<in> set t3. \<not> is_delay e \<and> \<not> is_scan_start e"
    using rows_not_other [of _ recs "unat ap_num" 0] rows by simp
  have "fst (scan_cycle d) = ScanStart scan_cfg True # ?body @ [VTaskDelay_ms 3000]"
    by (simp add: shape)
  moreover have "\<forall>e \<in> set ?body. \<not> is_delay e \<and> \<not> is_scan_start e"
    using t3 fetch_records_cases [OF fetch]
    by (auto simp: is_delay_def is_scan_start_def)
  ultimately show ?thesis by blast
qed

lemma scan_cycle_one_delay:
  "snd (scan_cycle d) = None \<Longrightarrow> count is_delay (fst (scan_cycle d)) = 1"
  using scan_cycle_delay [of d]
  by (auto simp: count_def is_delay_def)

lemma count_delay_loop:
  "\<forall>d \<in> set ds. snd (scan_cycle d) = None \<Longrightarrow>
   count is_delay (concat (map (\<lambda>d. fst (scan_cycle d)) ds)) = length ds"
  by (induction ds) (simp_all add: count_Nil count_append scan_cycle_one_delay)

lemma run_init_ok:
  "\<forall>x \<in> set cs. snd x \<in> {None, Some ESP_OK} \<Longrightarrow>
   run_init cs = (map (\<lambda>x. Init (fst x)) cs, None)"
  by (induction cs rule: run_init.induct) (auto simp: ESP_ERROR_CHECK_def)

lemma run_init_fail:
  "\<forall>x \<in> set pre. snd x \<in> {None, Some ESP_OK} \<Longrightarrow> rc \<noteq> ESP_OK \<Longrightarrow>
   run_init (pre @ (c, Some rc) # post)
     = (map (\<lambda>x. Init (fst x)) pre @ [Init c], Some (Abort rc))"
  by (induction pre rule: run_init.induct) (auto simp: ESP_ERROR_CHECK_def)

lemma init_calls_ok:
  "\<forall>rc \<in> set (init_rets di). rc = ESP_OK \<Longrightarrow>
   \<forall>x \<in> set (init_calls di). snd x \<in> {None, Some ESP_OK}"
  by (simp add: init_rets_def init_calls_def)

lemma run_init_startup: "\<forall>e \<in> set (fst (run_init cs)). is_startup e"
  by (induction cs rule: run_init.induct)
    (auto simp: is_startup_def ESP_ERROR_CHECK_def case_prod_beta)

lemma run_init_some_failure:
  "\<exists>rc. Some rc \<in> snd ` set cs \<and> rc \<noteq> ESP_OK \<Longrightarrow>
   \<exists>rc. snd (run_init cs) = Some (Abort rc) \<and> rc \<noteq> ESP_OK \<and> Some rc \<in> snd ` set cs"
proof (induction cs rule: run_init.induct)
  case 1
  then show ?case by simp
next
  case (2 c cs)
  then show ?case by (auto simp: case_prod_beta)
next
  case (3 c rc cs)
  show ?case
  proof (cases "rc = ESP_OK")
    case True
    with 3 show ?thesis
      by (auto simp: ESP_ERROR_CHECK_def case_prod_beta)
  next
    case False
    then show ?thesis by (auto simp: ESP_ERROR_CHECK_def)
  qed
qed

lemma init_rets_calls: "Some rc \<in> snd ` set (init_calls di) \<longleftrightarrow> rc \<in> set (init_rets di)"
  by (auto simp: init_calls_def init_rets_def)

lemma app_main_init_failure:
  assumes "\<exists>rc \<in> set (init_rets di). rc \<noteq> ESP_OK"
  shows "\<exists>t rc. app_main di ds = (t, Halted (Abort rc)) \<and> rc \<noteq> ESP_OK
           \<and> rc \<in> set (init_rets di) \<and> (\<forall>e \<in> set t. is_startup e)"
proof -
  from assms have "\<exists>rc. Some rc \<in> snd ` set (init_calls di) \<and> rc \<noteq> ESP_OK"
    by (auto simp: init_rets_calls)
  then obtain rc where rc: "snd (run_init (init_calls di)) = Some (Abort rc)"
    "rc \<noteq> ESP_OK" "rc \<in> set (init_rets di)"
    using run_init_some_failure [of "init_calls di"] by (auto simp: init_rets_calls)
  then have "app_main di ds
      = (Printf ''\<newline>'' # fst (run_init (init_calls di)), Halted (Abort rc))"
    by (cases "run_init (init_calls di)") (simp add: app_main_def)
  moreover have "\<forall>e \<in> set (Printf ''\<newline>'' # fst (run_init (init_calls di))). is_startup e"
    using run_init_startup [of "init_calls di"] by (simp add: is_startup_def)
  ultimately show ?thesis using rc by blast
qed

lemma app_main_init_stops:
  assumes "init_calls di = pre @ (c, Some rc) # post"
    and "\<forall>x \<in> set pre. snd x \<in> {None, Some ESP_OK}" and "rc \<noteq> ESP_OK"
  shows "app_main di ds
    = (Printf ''\<newline>'' # map (\<lambda>x. Init (fst x)) pre @ [Init c], Halted (Abort rc))"
  using run_init_fail [OF assms(2,3), of c post]
  by (simp add: app_main_def assms(1))

lemma scan_cycle_scan_start_fails:
  "scan_start_ret d \<noteq> ESP_OK \<Longrightarrow>
   scan_cycle d = ([ScanStart scan_cfg True], Some (Abort (scan_start_ret d)))"
  by (simp add: scan_cycle_def ESP_ERROR_CHECK_def)

lemma scan_cycle_get_ap_num_fails:
  "scan_start_ret d = ESP_OK \<Longrightarrow> fst (get_ap_num_ret d) \<noteq> ESP_OK \<Longrightarrow>
   scan_cycle d
     = ([ScanStart scan_cfg True, GetApNum], Some (Abort (fst (get_ap_num_ret d))))"
  by (simp add: scan_cycle_def ESP_ERROR_CHECK_def)

lemma scan_cycle_get_ap_records_fails:
  "scan_start_ret d = ESP_OK \<Longrightarrow> fst (get_ap_num_ret d) = ESP_OK \<Longrightarrow>
   0 < snd (get_ap_num_ret d) \<Longrightarrow> fst (get_ap_records_ret d) \<noteq> ESP_OK \<Longrightarrow>
   scan_cycle d
     = ([ScanStart scan_cfg True, GetApNum, Calloc (unat (snd (get_ap_num_ret d))),
         GetApRecords (unat (snd (get_ap_num_ret d)))],
        Some (Abort (fst (get_ap_records_ret d))))"
  by (simp add: scan_cycle_def ESP_ERROR_CHECK_def fetch_records_fail)

section \<open>The two helpers\<close>

text \<open>
  Claim C1. The label function is total over the authentication modes: each of the
  eight recognized values (open, WEP, WPA-PSK, WPA2-PSK, WPA/WPA2-PSK, WPA2-Enterprise,
  WPA3-PSK, WPA2/WPA3-PSK) gets its own fixed label, and every value outside the
  recognized set gets \<^verbatim>\<open>UNK\<close>. The function is a pure function of its argument, so
  it has no side effect and cannot fail.
\<close>

theorem authmode_to_str_total:
  "authmode_to_str WIFI_AUTH_OPEN = ''OPEN''
   \<and> authmode_to_str WIFI_AUTH_WEP = ''WEP''
   \<and> authmode_to_str WIFI_AUTH_WPA_PSK = ''WPA''
   \<and> authmode_to_str WIFI_AUTH_WPA2_PSK = ''WPA2''
   \<and> authmode_to_str WIFI_AUTH_WPA_WPA2_PSK = ''WPA/WPA2''
   \<and> authmode_to_str WIFI_AUTH_WPA2_ENTERPRISE = ''WPA2-E''
   \<and> authmode_to_str WIFI_AUTH_WPA3_PSK = ''WPA3''
   \<and> authmode_to_str WIFI_AUTH_WPA2_WPA3_PSK = ''WPA2/3''
   \<and> (m \<notin> recognized \<longrightarrow> authmode_to_str m = ''UNK'')"
  by (cases m) (simp_all add: recognized_def)

theorem authmode_to_str_total_witness:
  "WIFI_AUTH_OTHER 8 \<notin> recognized \<and> authmode_to_str (WIFI_AUTH_OTHER 8) = ''UNK''"
  using authmode_to_str_total [of "WIFI_AUTH_OTHER 8"] by (simp add: recognized_def)

text \<open>
  Claim C2. For a buffer whose first byte is zero, an all-zero buffer included, the
  identifier display function returns the placeholder, which reads \<^verbatim>\<open>NONE\<close>; for a
  buffer whose first byte is not zero it returns the buffer itself, unchanged; and for
  every buffer it returns a string, never a fault.
\<close>

theorem ssid_or_none_first_byte:
  "(ssid_bytes buf ! 0 = NUL \<longrightarrow> ssid_or_none (Some buf) = Inr (c_literal ''NONE''))
   \<and> (ssid_bytes buf ! 0 \<noteq> NUL \<longrightarrow> ssid_or_none (Some buf) = Inr (ssid_bytes buf))
   \<and> (\<exists>p. ssid_or_none (Some buf) = Inr p)
   \<and> c_string (c_literal ''NONE'') = Inr ''NONE''"
  by (simp add: ssid_or_none_Some c_string_literal NUL_def)

theorem ssid_or_none_first_byte_witness:
  "ssid_bytes (ssid_of []) = replicate 33 NUL
   \<and> ssid_or_none (Some (ssid_of [])) = Inr (c_literal ''NONE'')
   \<and> ssid_bytes (ssid_of ''TestNet'') ! 0 \<noteq> NUL
   \<and> ssid_or_none (Some (ssid_of ''TestNet'')) = Inr (''TestNet'' @ replicate 26 NUL)"
  using ssid_or_none_first_byte [of "ssid_of []"]
    ssid_or_none_first_byte [of "ssid_of ''TestNet''"]
  by (simp add: ssid_bytes_of NUL_def)

text \<open>
  Claim C9. Given the null pointer, the identifier display function returns the
  placeholder \<^verbatim>\<open>NONE\<close> without reading through the pointer: no pointer, null or not,
  makes it fault.
\<close>

theorem ssid_or_none_null:
  "ssid_or_none None = Inr (c_literal ''NONE'') \<and> (\<forall>p. \<exists>bs. ssid_or_none p = Inr bs)"
  by (simp add: ssid_or_none_def ssid_load_def split: option.split)

section \<open>The header line\<close>

text \<open>
  Claim C3. For the count 1 the header line reads \<^verbatim>\<open>Found 1 network\<close>; for every
  other count \<open>n\<close>, 0 included, it reads \<^verbatim>\<open>Found <n> networks\<close>, where \<^verbatim>\<open><n>\<close> is the
  decimal numeral of \<open>n\<close>.
\<close>

theorem header_line_plural:
  "header_line 1 = ''Found 1 network''
   \<and> header_line 0 = ''Found 0 networks''
   \<and> (n \<noteq> 1 \<longrightarrow> header_line n = ''Found '' @ fmt_u (unat n) @ '' networks'')
   \<and> numeral_val 10 (fmt_u (unat n)) = unat n
   \<and> set (fmt_u (unat n)) \<subseteq> set ''0123456789''"
  using dec_nat_digits [of "unat n"]
  by (simp add: header_line_def fmt_u_def numeral_val_dec_nat dec_nat_small digit_char_def)

theorem header_line_plural_witness:
  "(3 :: u16) \<noteq> 1 \<and> header_line 3 = ''Found 3 networks''
   \<and> (65535 :: u16) \<noteq> 1 \<and> header_line 65535 = ''Found 65535 networks''"
  using header_line_plural [of 3] header_line_plural [of 65535]
  by (simp add: fmt_u_def dec_nat.simps digit_char_def)

section \<open>The table\<close>

text \<open>
  Claim C4. In a pass in which every call succeeds and the driver returns \<open>k\<close> records
  (each with a terminated identifier, as the 32 bytes of an identifier in a buffer of 33
  always are), the REPORTING phase logs exactly one row for each of the \<open>k\<close> records,
  in the order in which the array holds them, between the second separator and the
  release of the buffer. The row of the record at the zero-based index \<open>i\<close> is
  \<open>row_text i r\<close>: the index, the identifier display obtained through
  \<open>ssid_or_none\<close>, the signal strength followed by \<^verbatim>\<open>dBm\<close>, the channel, the label
  obtained through \<open>authmode_to_str\<close>, and the address as six octets separated by
  colons, each octet two upper-case hexadecimal digits.
\<close>

theorem report_one_row_per_record:
  assumes "scan_start_ret d = ESP_OK" and "get_ap_num_ret d = (ESP_OK, n)" and "0 < n"
    and "calloc_ret d" and "get_ap_records_ret d = (ESP_OK, k, rs)"
    and "unat k \<le> length rs" and "\<forall>r \<in> set (take (unat k) rs). terminated r"
  shows "scan_cycle d =
           ([ScanStart scan_cfg True, GetApNum, Calloc (unat n), GetApRecords (unat n),
             LogI TAG (header_line k), LogI TAG separator, LogI TAG column_header,
             LogI TAG separator]
            @ map (\<lambda>(i, r). LogI TAG (row_text i r)) (enumerate 0 (take (unat k) rs))
            @ [Free, LogI TAG (separator @ ''\<newline>''), VTaskDelay_ms 3000], None)
         \<and> (\<forall>r \<in> set (take (unat k) rs).
               (case ssid_or_none (Some (ssid r)) of Inl f \<Rightarrow> Inl f | Inr p \<Rightarrow> c_string p)
                 = Inr (ssid_display (ssid r)))
         \<and> (\<forall>b. length (hex_octet b) = 2 \<and> set (hex_octet b) \<subseteq> set ''0123456789ABCDEF''
               \<and> numeral_val 16 (hex_octet b) = unat b)"
proof -
  have "\<forall>r \<in> set (take (unat k) rs).
      (case ssid_or_none (Some (ssid r)) of Inl f \<Rightarrow> Inl f | Inr p \<Rightarrow> c_string p)
        = Inr (ssid_display (ssid r))"
    using assms(7) by (simp add: ssid_or_none_Some c_string_display terminated_def)
  with scan_cycle_rows [OF assms] show ?thesis
    using hex_octet_shape by blast
qed

theorem report_one_row_per_record_witness:
  "terminated test_net \<and> terminated hidden_net
   \<and> scan_cycle (scan_ok [test_net, hidden_net]) =
       ([ScanStart scan_cfg True, GetApNum, Calloc 2, GetApRecords 2,
         LogI TAG ''Found 2 networks'', LogI TAG separator,
         LogI TAG '' # | SSID                             |     RSSI |   CH | AUTH     | BSSID'',
         LogI TAG separator,
         LogI TAG '' 0 | TestNet                          |  -40 dBm |    6 | WPA2     | 11:22:33:44:55:66'',
         LogI TAG '' 1 | NONE                             |  -80 dBm |   11 | OPEN     | AA:BB:CC:DD:EE:FF'',
         Free, LogI TAG (separator @ ''\<newline>''), VTaskDelay_ms 3000], None)"
  using report_one_row_per_record
    [of "scan_ok [test_net, hidden_net]" 2 2 "[test_net, hidden_net]"]
  by (simp add: scan_ok_def terminated_examples test_net_row hidden_net_row
      column_header_text header_line_def fmt_u_def dec_nat_small digit_char_def)

section \<open>A pass without networks\<close>

text \<open>
  Claim C10. In a pass in which the driver reports the count zero, the loop makes no
  allocation, no call to fetch records and no release; it still logs the header line
  \<^verbatim>\<open>Found 0 networks\<close>, the separator, the column header, the separator, no row, and
  the closing separator, and then sleeps.
\<close>

theorem zero_count_cycle:
  assumes "scan_start_ret d = ESP_OK" and "get_ap_num_ret d = (ESP_OK, 0)"
  shows "scan_cycle d =
           ([ScanStart scan_cfg True, GetApNum, LogI TAG ''Found 0 networks'',
             LogI TAG separator, LogI TAG column_header, LogI TAG separator,
             LogI TAG (separator @ ''\<newline>''), VTaskDelay_ms 3000], None)
         \<and> count is_calloc (fst (scan_cycle d)) = 0
         \<and> count is_fetch (fst (scan_cycle d)) = 0
         \<and> count is_free (fst (scan_cycle d)) = 0"
  by (simp add: scan_cycle_no_networks [OF assms] count_def is_calloc_def is_fetch_def
      is_free_def)

theorem zero_count_cycle_witness:
  "scan_start_ret (scan_ok []) = ESP_OK \<and> get_ap_num_ret (scan_ok []) = (ESP_OK, 0)
   \<and> messages (fst (scan_cycle (scan_ok [])))
       = [''Found 0 networks'', separator, column_header, separator, separator @ ''\<newline>'']
   \<and> count is_calloc (fst (scan_cycle (scan_ok []))) = 0"
  using zero_count_cycle [of "scan_ok []"]
  by (simp add: scan_ok_def messages_def count_def is_calloc_def)

section \<open>The scratch buffer\<close>

text \<open>
  Claim C5, as stated, fails: a pass in which the driver reports no network runs to its
  end without any allocation and without any release.
\<close>

theorem release_every_cycle_counterexample:
  "snd (scan_cycle (scan_ok [])) = None
   \<and> count is_calloc (fst (scan_cycle (scan_ok []))) \<noteq> 1
   \<and> count is_free (fst (scan_cycle (scan_ok []))) \<noteq> 1"
  using scan_cycle_no_networks [of "scan_ok []"]
  by (simp add: scan_ok_def count_def is_calloc_def is_free_def)

text \<open>
  Claim C5, amended. Every pass that runs to its end makes exactly one call to start a
  scan. If the reported count is not zero and the allocation succeeds, the pass makes
  exactly one allocation, of exactly the reported count of records, and exactly one
  release, and the release comes after the rows and before the closing separator and
  the sleep. If the reported count is zero, the pass allocates and releases nothing. No
  record survives into the next pass: what the later passes do is what they do on their
  own stubs.
\<close>

theorem buffer_lifecycle:
  assumes "snd (scan_cycle d) = None"
  shows "count is_scan_start (fst (scan_cycle d)) = 1
    \<and> (0 < snd (get_ap_num_ret d) \<and> calloc_ret d \<longrightarrow>
         filter is_calloc (fst (scan_cycle d)) = [Calloc (unat (snd (get_ap_num_ret d)))]
         \<and> count is_free (fst (scan_cycle d)) = 1
         \<and> (\<exists>pre. fst (scan_cycle d)
                    = pre @ [Free, LogI TAG (separator @ ''\<newline>''), VTaskDelay_ms 3000]
                  \<and> (\<forall>e \<in> set pre. \<not> is_free e \<and> \<not> is_delay e)))
    \<and> (snd (get_ap_num_ret d) = 0 \<longrightarrow>
         count is_calloc (fst (scan_cycle d)) = 0 \<and> count is_free (fst (scan_cycle d)) = 0)
    \<and> fst (scan_loop (d # ds)) = fst (scan_cycle d) @ fst (scan_loop ds)"
proof -
  from assms obtain t1 ap_num recs t3 where
    fetch: "fetch_records d (snd (get_ap_num_ret d)) = (t1, Inr (ap_num, recs))"
    and rows: "report_rows recs (unat ap_num) 0 = (t3, None)"
    and shape: "scan_cycle d =
     ([ScanStart scan_cfg True, GetApNum] @ t1
      @ [LogI TAG (header_line ap_num), LogI TAG separator, LogI TAG column_header,
         LogI TAG separator]
      @ t3 @ (if recs \<noteq> None then [Free] else [])
      @ [LogI TAG (separator @ ''\<newline>''), VTaskDelay_ms 3000], None)"
    by (rule scan_cycle_shape)
  have t3: "\<forall>e \<in> set t3. \<not> is_free e \<and> \<not> is_delay e \<and> \<not> is_calloc e \<and> \<not> is_scan_start e"
    using rows_not_other [of _ recs "unat ap_num" 0] rows by simp
  then have f3: "filter is_free t3 = []" "filter is_calloc t3 = []"
    "filter is_scan_start t3 = []"
    by simp_all
  note cases = fetch_records_cases [OF fetch]
  have one: "count is_scan_start (fst (scan_cycle d)) = 1"
    using cases f3
    by (auto simp: shape count_def is_scan_start_def)
  have pos: "filter is_calloc (fst (scan_cycle d)) = [Calloc (unat (snd (get_ap_num_ret d)))]
         \<and> count is_free (fst (scan_cycle d)) = 1
         \<and> (\<exists>pre. fst (scan_cycle d)
                    = pre @ [Free, LogI TAG (separator @ ''\<newline>''), VTaskDelay_ms 3000]
                  \<and> (\<forall>e \<in> set pre. \<not> is_free e \<and> \<not> is_delay e))"
    if "0 < snd (get_ap_num_ret d)" and "calloc_ret d"
  proof -
    from that cases have t1: "t1 = [Calloc (unat (snd (get_ap_num_ret d))),
        GetApRecords (unat (snd (get_ap_num_ret d)))]" and recs: "recs \<noteq> None"
      by auto
    let ?pre = "[ScanStart scan_cfg True, GetApNum] @ t1
      @ [LogI TAG (header_line ap_num), LogI TAG separator, LogI TAG column_header,
         LogI TAG separator] @ t3"
    have "fst (scan_cycle d)
        = ?pre @ [Free, LogI TAG (separator @ ''\<newline>''), VTaskDelay_ms 3000]"
      using recs by (simp add: shape)
    moreover have "\<forall>e \<in> set ?pre. \<not> is_free e \<and> \<not> is_delay e"
      using t3 by (auto simp: t1 is_free_def is_delay_def)
    moreover have "filter is_calloc (fst (scan_cycle d))
        = [Calloc (unat (snd (get_ap_num_ret d)))]"
      using recs f3 by (simp add: shape t1 is_calloc_def)
    moreover have "count is_free (fst (scan_cycle d)) = 1"
      using recs f3 by (simp add: shape t1 count_def is_free_def)
    ultimately show ?thesis by blast
  qed
  have zero: "count is_calloc (fst (scan_cycle d)) = 0
      \<and> count is_free (fst (scan_cycle d)) = 0"
    if "snd (get_ap_num_ret d) = 0"
    using that cases f3 by (auto simp: shape count_def is_calloc_def is_free_def)
  have "fst (scan_loop (d # ds)) = fst (scan_cycle d) @ fst (scan_loop ds)"
    using assms by (cases "scan_cycle d") (simp add: case_prod_beta)
  with one pos zero show ?thesis by blast
qed

theorem buffer_lifecycle_witness:
  "snd (scan_cycle (scan_ok [test_net])) = None
   \<and> 0 < snd (get_ap_num_ret (scan_ok [test_net])) \<and> calloc_ret (scan_ok [test_net])
   \<and> filter is_calloc (fst (scan_cycle (scan_ok [test_net]))) = [Calloc 1]
   \<and> count is_free (fst (scan_cycle (scan_ok [test_net]))) = 1
   \<and> count is_scan_start (fst (scan_cycle (scan_ok [test_net]))) = 1
   \<and> snd (scan_cycle (scan_ok [])) = None
   \<and> snd (get_ap_num_ret (scan_ok [])) = 0
   \<and> count is_free (fst (scan_cycle (scan_ok []))) = 0"
  using buffer_lifecycle [OF scan_ok_test_net_completes, of "[]"]
    buffer_lifecycle [OF scan_ok_empty_completes, of "[]"]
    scan_ok_test_net_completes scan_ok_empty_completes
  by (simp add: scan_ok_def)

section \<open>The separators\<close>

text \<open>
  Claim C7, as stated, fails: the separator that the source writes out is not a string of
  94 dashes.
\<close>

theorem separator_94_counterexample: "separator \<noteq> replicate 94 CHR ''-''"
proof
  assume "separator = replicate 94 CHR ''-''"
  then have "length separator = length (replicate 94 CHR ''-'')" by (rule arg_cong)
  then show False by (simp add: separator_def)
qed

text \<open>
  Claim C7, amended. The separator is a string of exactly 92 dashes. In every pass that
  runs to its end the messages are the header line, the separator, the column header,
  the separator, one row for each record counted, and the separator again, this last
  one followed by one line feed. The column header has the widths and the punctuation
  of its format string.
\<close>

theorem separator_lines:
  assumes "snd (scan_cycle d) = None"
  shows "separator = replicate 92 CHR ''-''
    \<and> (\<exists>k rows. length rows = unat k
          \<and> messages (fst (scan_cycle d))
              = [header_line k, separator, column_header, separator] @ rows
                @ [separator @ ''\<newline>''])
    \<and> column_header
        = '' # | SSID                             |     RSSI |   CH | AUTH     | BSSID''"
proof -
  from assms obtain t1 ap_num recs t3 where
    fetch: "fetch_records d (snd (get_ap_num_ret d)) = (t1, Inr (ap_num, recs))"
    and rows: "report_rows recs (unat ap_num) 0 = (t3, None)"
    and shape: "scan_cycle d =
     ([ScanStart scan_cfg True, GetApNum] @ t1
      @ [LogI TAG (header_line ap_num), LogI TAG separator, LogI TAG column_header,
         LogI TAG separator]
      @ t3 @ (if recs \<noteq> None then [Free] else [])
      @ [LogI TAG (separator @ ''\<newline>''), VTaskDelay_ms 3000], None)"
    by (rule scan_cycle_shape)
  have "messages t1 = []"
    using fetch_records_cases [OF fetch] by (auto simp: messages_def)
  then have "messages (fst (scan_cycle d))
      = [header_line ap_num, separator, column_header, separator] @ messages t3
        @ [separator @ ''\<newline>'']"
    by (simp add: shape messages_append messages_Cons messages_Nil)
  moreover have "length (messages t3) = unat ap_num"
    using report_rows_count [of recs "unat ap_num" 0] rows by simp
  ultimately show ?thesis
    using separator_dashes column_header_text by blast
qed

theorem separator_lines_witness:
  "snd (scan_cycle (scan_ok [test_net])) = None
   \<and> length separator = 92
   \<and> (\<exists>k rows. length rows = unat k
          \<and> messages (fst (scan_cycle (scan_ok [test_net])))
              = [header_line k, separator, column_header, separator] @ rows
                @ [separator @ ''\<newline>''])"
proof -
  note lines = separator_lines [OF scan_ok_test_net_completes]
  from lines have "separator = replicate 92 CHR ''-''" by (rule conjunct1)
  then have "length separator = length (replicate 92 CHR ''-'')" by (rule arg_cong)
  then have "length separator = 92" by (simp only: length_replicate)
  with lines scan_ok_test_net_completes show ?thesis by blast
qed

section \<open>The sleep and the loop\<close>

text \<open>
  Claim C8. Every pass that runs to its end starts with the blocking call that starts
  the scan and ends, after all its log messages, with a delay of 3000 ms; this is the
  only delay of the pass, so the next scan starts right after it. What is recorded is
  the delay that the program asks for, \<^verbatim>\<open>vTaskDelay(pdMS_TO_TICKS(3000))\<close>, not the
  time that passes. The loop has no exit of its own: as long as no pass halts (a failed
  checked call or a fault), the run is still in the loop after any number of passes, and
  it has slept once for each of them.
\<close>

theorem sleep_between_cycles:
  assumes "\<forall>d \<in> set ds. snd (scan_cycle d) = None"
  shows "scan_loop ds = (concat (map (\<lambda>d. fst (scan_cycle d)) ds), Running)
    \<and> count is_delay (fst (scan_loop ds)) = length ds
    \<and> (\<forall>d \<in> set ds. \<exists>body.
          fst (scan_cycle d) = ScanStart scan_cfg True # body @ [VTaskDelay_ms 3000]
          \<and> (\<forall>e \<in> set body. \<not> is_delay e \<and> \<not> is_scan_start e))
    \<and> ((\<forall>rc \<in> set (init_rets di). rc = ESP_OK) \<longrightarrow> snd (app_main di ds) = Running)"
proof -
  have loop: "scan_loop ds = (concat (map (\<lambda>d. fst (scan_cycle d)) ds), Running)"
    using assms by (rule scan_loop_completed)
  moreover have "count is_delay (fst (scan_loop ds)) = length ds"
    using assms by (simp add: loop count_delay_loop)
  moreover have "\<forall>d \<in> set ds. \<exists>body.
          fst (scan_cycle d) = ScanStart scan_cfg True # body @ [VTaskDelay_ms 3000]
          \<and> (\<forall>e \<in> set body. \<not> is_delay e \<and> \<not> is_scan_start e)"
    using assms scan_cycle_delay by blast
  moreover have "snd (app_main di ds) = Running"
    if "\<forall>rc \<in> set (init_rets di). rc = ESP_OK"
    using run_init_ok [OF init_calls_ok [OF that]] by (simp add: app_main_def loop)
  ultimately show ?thesis by blast
qed

theorem sleep_between_cycles_witness:
  "snd (scan_cycle (scan_ok [])) = None \<and> snd (scan_cycle (scan_ok [test_net])) = None
   \<and> init_rets init_ok = [ESP_OK, ESP_OK, ESP_OK, ESP_OK, ESP_OK, ESP_OK]
   \<and> snd (app_main init_ok [scan_ok [], scan_ok [test_net]]) = Running
   \<and> count is_delay (fst (scan_loop [scan_ok [], scan_ok [test_net]])) = 2"
proof -
  have c: "\<forall>d \<in> set [scan_ok [], scan_ok [test_net]]. snd (scan_cycle d) = None"
    using scan_ok_empty_completes scan_ok_test_net_completes by simp
  have i: "init_rets init_ok = [ESP_OK, ESP_OK, ESP_OK, ESP_OK, ESP_OK, ESP_OK]"
    by (simp add: init_rets_def init_ok_def)
  then have i': "\<forall>rc \<in> set (init_rets init_ok). rc = ESP_OK"
    by simp
  from sleep_between_cycles [OF c, of init_ok] i'
  have "snd (app_main init_ok [scan_ok [], scan_ok [test_net]]) = Running"
    and "count is_delay (fst (scan_loop [scan_ok [], scan_ok [test_net]]))
      = length [scan_ok [], scan_ok [test_net]]"
    by blast+
  with c i show ?thesis by (simp del: scan_loop.simps)
qed

section \<open>Failures of the checked calls\<close>

text \<open>
  Claim C6. A return code other than \<^verbatim>\<open>ESP_OK\<close> from a checked call is fatal. In the
  initialisation the run halts at the first checked call that fails: the calls before
  it were made once each, no call is made after it, and the loop never starts (no scan,
  no log message, no delay). In a pass of the loop the run halts at the failing call
  (the start of the scan, the query of the count, or the fetch of the records): the
  call is not made again, nothing is logged in that pass, and no later pass runs.
\<close>

theorem checked_failure_is_fatal:
  "((\<exists>rc \<in> set (init_rets di). rc \<noteq> ESP_OK) \<longrightarrow>
      (\<exists>t rc. app_main di ds = (t, Halted (Abort rc)) \<and> rc \<noteq> ESP_OK
         \<and> rc \<in> set (init_rets di) \<and> (\<forall>e \<in> set t. is_startup e)))
   \<and> (init_calls di = pre @ (c, Some rc) # post
        \<and> (\<forall>x \<in> set pre. snd x \<in> {None, Some ESP_OK}) \<and> rc \<noteq> ESP_OK \<longrightarrow>
      app_main di ds
        = (Printf ''\<newline>'' # map (\<lambda>x. Init (fst x)) pre @ [Init c], Halted (Abort rc)))
   \<and> (scan_start_ret d \<noteq> ESP_OK \<longrightarrow>
      scan_cycle d = ([ScanStart scan_cfg True], Some (Abort (scan_start_ret d))))
   \<and> (scan_start_ret d = ESP_OK \<and> fst (get_ap_num_ret d) \<noteq> ESP_OK \<longrightarrow>
      scan_cycle d
        = ([ScanStart scan_cfg True, GetApNum], Some (Abort (fst (get_ap_num_ret d)))))
   \<and> (scan_start_ret d = ESP_OK \<and> fst (get_ap_num_ret d) = ESP_OK
        \<and> 0 < snd (get_ap_num_ret d) \<and> fst (get_ap_records_ret d) \<noteq> ESP_OK \<longrightarrow>
      scan_cycle d
        = ([ScanStart scan_cfg True, GetApNum, Calloc (unat (snd (get_ap_num_ret d))),
            GetApRecords (unat (snd (get_ap_num_ret d)))],
           Some (Abort (fst (get_ap_records_ret d)))))
   \<and> ((\<forall>d' \<in> set before. snd (scan_cycle d') = None) \<and> snd (scan_cycle d) = Some h \<longrightarrow>
      scan_loop (before @ d # after)
        = (concat (map (\<lambda>d'. fst (scan_cycle d')) before) @ fst (scan_cycle d), Halted h))"
  using app_main_init_failure [of di ds] app_main_init_stops [of di pre c rc post ds]
    scan_cycle_scan_start_fails [of d] scan_cycle_get_ap_num_fails [of d]
    scan_cycle_get_ap_records_fails [of d] scan_loop_halts [of before d h after]
  by blast

theorem checked_failure_is_fatal_witness:
  "app_main (init_ok\<lparr>esp_wifi_init_ret := 0x101\<rparr>) [scan_ok []]
     = ([Printf ''\<newline>'', Init Nvs_flash_init, Init Esp_netif_init,
         Init Esp_event_loop_create_default, Init Esp_netif_create_default_wifi_sta,
         Init Esp_wifi_init], Halted (Abort 0x101))
   \<and> scan_cycle ((scan_ok [test_net])\<lparr>scan_start_ret := 0x3001\<rparr>)
       = ([ScanStart scan_cfg True], Some (Abort 0x3001))
   \<and> scan_cycle ((scan_ok [test_net])\<lparr>get_ap_num_ret := (0x3001, 0)\<rparr>)
       = ([ScanStart scan_cfg True, GetApNum], Some (Abort 0x3001))
   \<and> scan_cycle ((scan_ok [test_net])\<lparr>get_ap_records_ret := (0x102, 0, [])\<rparr>)
       = ([ScanStart scan_cfg True, GetApNum, Calloc 1, GetApRecords 1], Some (Abort 0x102))
   \<and> scan_loop ([scan_ok []] @ (scan_ok [test_net])\<lparr>scan_start_ret := 0x3001\<rparr>
        # [scan_ok [test_net]])
       = (fst (scan_cycle (scan_ok [])) @ [ScanStart scan_cfg True], Halted (Abort 0x3001))"
proof -
  let ?di = "init_ok\<lparr>esp_wifi_init_ret := 0x101\<rparr>"
  let ?pre = "[(Nvs_flash_init, Some ESP_OK), (Esp_netif_init, Some ESP_OK),
      (Esp_event_loop_create_default, Some ESP_OK),
      (Esp_netif_create_default_wifi_sta, None)]"
  let ?post = "[(Esp_wifi_set_mode WIFI_MODE_STA, Some ESP_OK), (Esp_wifi_start, Some ESP_OK)]"
  let ?d1 = "(scan_ok [test_net])\<lparr>scan_start_ret := 0x3001\<rparr>"
  let ?d2 = "(scan_ok [test_net])\<lparr>get_ap_num_ret := (0x3001, 0)\<rparr>"
  let ?d3 = "(scan_ok [test_net])\<lparr>get_ap_records_ret := (0x102, 0, [])\<rparr>"
  have init: "init_calls ?di = ?pre @ (Esp_wifi_init, Some 0x101) # ?post"
    by (simp add: init_calls_def init_ok_def)
  have a: "app_main ?di [scan_ok []]
     = ([Printf ''\<newline>'', Init Nvs_flash_init, Init Esp_netif_init,
         Init Esp_event_loop_create_default, Init Esp_netif_create_default_wifi_sta,
         Init Esp_wifi_init], Halted (Abort 0x101))"
    using checked_failure_is_fatal
      [of ?di "[scan_ok []]" ?pre Esp_wifi_init "0x101" ?post] init
    by (simp add: ESP_OK_def)
  have b: "scan_cycle ?d1 = ([ScanStart scan_cfg True], Some (Abort 0x3001))"
    using checked_failure_is_fatal [where d = ?d1]
    by (simp add: scan_ok_def ESP_OK_def)
  have c: "scan_cycle ?d2 = ([ScanStart scan_cfg True, GetApNum], Some (Abort 0x3001))"
    using checked_failure_is_fatal [where d = ?d2]
    by (simp add: scan_ok_def ESP_OK_def)
  have d: "scan_cycle ?d3
      = ([ScanStart scan_cfg True, GetApNum, Calloc 1, GetApRecords 1], Some (Abort 0x102))"
    using checked_failure_is_fatal [where d = ?d3]
    by (simp add: scan_ok_def ESP_OK_def)
  have e: "scan_loop ([scan_ok []] @ ?d1 # [scan_ok [test_net]])
       = (fst (scan_cycle (scan_ok [])) @ [ScanStart scan_cfg True], Halted (Abort 0x3001))"
    using checked_failure_is_fatal
      [where d = ?d1 and before = "[scan_ok []]" and h = "Abort 0x3001"
        and after = "[scan_ok [test_net]]"] b scan_ok_empty_completes
    by (simp del: scan_loop.simps)
  from a b c d e show ?thesis by blast
qed

end
